theory Spec2Isabelle
  imports Main
begin

section \<open>Python strings and the built-ins the module uses on them\<close>

text \<open>
  A Python \<^verbatim>\<open>str\<close> is modelled by an Isabelle \<^typ>\<open>string\<close>: a character stands for the
  code point of the same number, so the model covers the strings over U+0000 .. U+00FF.
  The built-ins below follow CPython on that range.
\<close>

abbreviation squote :: char where "squote \<equiv> CHR 0x27"
abbreviation dquote :: char where "dquote \<equiv> CHR 0x22"
abbreviation backslash :: char where "backslash \<equiv> CHR 0x5C"

text \<open>\<^verbatim>\<open>str.isspace\<close> on one code point: TAB..CR, FS..US, space, NEL and NBSP.\<close>

definition is_space :: "char \<Rightarrow> bool" where
  "is_space c = (let n = (of_char c :: nat) in
     (9 \<le> n \<and> n \<le> 13) \<or> (28 \<le> n \<and> n \<le> 32) \<or> n = 133 \<or> n = 160)"

text \<open>\<^verbatim>\<open>s.strip()\<close>, \<^verbatim>\<open>s.startswith(p)\<close> and the slice \<^verbatim>\<open>s[a:-b]\<close> (empty when the
  bounds cross, as in Python).\<close>

definition strip :: "string \<Rightarrow> string" where
  "strip s = rev (dropWhile is_space (rev (dropWhile is_space s)))"

definition startswith :: "string \<Rightarrow> string \<Rightarrow> bool" where
  "startswith s p = (take (length p) s = p)"

definition slice_from_to_neg :: "nat \<Rightarrow> nat \<Rightarrow> string \<Rightarrow> string" where
  "slice_from_to_neg a b s = take (length s - b - a) (drop a s)"

text \<open>\<^verbatim>\<open>sep.join(xs)\<close>.\<close>

fun join :: "string \<Rightarrow> string list \<Rightarrow> string" where
  "join sep [] = []"
| "join sep [x] = x"
| "join sep (x # y # ys) = x @ sep @ join sep (y # ys)"

text \<open>
  \<^verbatim>\<open>repr\<close> of a \<^verbatim>\<open>str\<close>. The quote is the double quote when the string holds a single
  quote and no double quote, the single quote otherwise. The quote and the backslash are
  escaped with a backslash; TAB, LF and CR become \<^verbatim>\<open>\t\<close>, \<^verbatim>\<open>\n\<close>, \<^verbatim>\<open>\r\<close>; the other
  code points that are not printable (below U+0020, U+007F .. U+00A0, U+00AD) become
  \<^verbatim>\<open>\xhh\<close> in lower-case hexadecimal; every other code point is copied.
\<close>

definition hexdigit :: "nat \<Rightarrow> char" where
  "hexdigit d = (if d < 10 then char_of (48 + d) else char_of (87 + d))"

definition hex2 :: "nat \<Rightarrow> string" where
  "hex2 n = [hexdigit (n div 16), hexdigit (n mod 16)]"

definition is_printable :: "char \<Rightarrow> bool" where
  "is_printable c = (let n = (of_char c :: nat) in
     (32 \<le> n \<and> n < 127) \<or> (161 \<le> n \<and> n \<noteq> 173))"

definition repr_quote :: "string \<Rightarrow> char" where
  "repr_quote s = (if squote \<in> set s \<and> dquote \<notin> set s then dquote else squote)"

definition escape_char :: "char \<Rightarrow> char \<Rightarrow> string" where
  "escape_char quote c =
     (if c = quote \<or> c = backslash then [backslash, c]
      else if c = CHR 0x09 then [backslash, CHR ''t'']
      else if c = CHR 0x0A then [backslash, CHR ''n'']
      else if c = CHR 0x0D then [backslash, CHR ''r'']
      else if is_printable c then [c]
      else backslash # CHR ''x'' # hex2 (of_char c))"

definition repr_str :: "string \<Rightarrow> string" where
  "repr_str s = (let q = repr_quote s in q # concat (map (escape_char q) s) @ [q])"

text \<open>
  \<^verbatim>\<open>repr\<close> (and so \<^verbatim>\<open>str\<close> and f-string formatting) of a list of strings, and of a
  dictionary with string keys whose values are shown by \<open>repr_value\<close>. A dictionary is
  an association list in insertion order, as Python iterates it.
\<close>

definition repr_str_list :: "string list \<Rightarrow> string" where
  "repr_str_list xs = ''['' @ join '', '' (map repr_str xs) @ '']''"

definition repr_item :: "('v \<Rightarrow> string) \<Rightarrow> string \<times> 'v \<Rightarrow> string" where
  "repr_item repr_value kv = repr_str (fst kv) @ '': '' @ repr_value (snd kv)"

definition repr_dict :: "('v \<Rightarrow> string) \<Rightarrow> (string \<times> 'v) list \<Rightarrow> string" where
  "repr_dict repr_value kvs = ''{'' @ join '', '' (map (repr_item repr_value) kvs) @ ''}''"

section \<open>Objects and their types\<close>

text \<open>
  A type object carries its \<^verbatim>\<open>__module__\<close> and its \<^verbatim>\<open>__name__\<close>; an object is what
  the module observes of it: its type, its truth value, its \<^verbatim>\<open>str()\<close> and its identity.
\<close>

record pytype =
  type_module :: string
  type_name :: string

record pyobj =
  ob_type :: pytype
  ob_truthy :: bool
  ob_str :: string
  ob_id :: nat

definition py_None :: pyobj where
  "py_None = \<lparr>ob_type = \<lparr>type_module = ''builtins'', type_name = ''NoneType''\<rparr>,
              ob_truthy = False, ob_str = ''None'', ob_id = 0\<rparr>"

section \<open>Module-level helpers\<close>

text \<open>\<^verbatim>\<open>_get_cache_key\<close>: the function name, the list of the positional arguments' type
  names and the dictionary of the keyword arguments' type names, formatted into one
  string.\<close>

definition arg_types :: "pyobj list \<Rightarrow> string list" where
  "arg_types args = map (\<lambda>arg. type_name (ob_type arg)) args"

definition kwarg_types :: "(string \<times> pyobj) list \<Rightarrow> (string \<times> string) list" where
  "kwarg_types kwargs = map (\<lambda>kv. (fst kv, type_name (ob_type (snd kv)))) kwargs"

definition get_cache_key :: "string \<Rightarrow> pyobj list \<Rightarrow> (string \<times> pyobj) list \<Rightarrow> string" where
  "get_cache_key func_name args kwargs =
     func_name @ ''_'' @ repr_str_list (arg_types args) @ ''_'' @
     repr_dict repr_str (kwarg_types kwargs)"

text \<open>\<^verbatim>\<open>_clean_code\<close>: drop a leading \<^verbatim>\<open>```python\<close> or \<^verbatim>\<open>```\<close> together with the last
  three characters, then strip white space.\<close>

definition clean_code :: "string \<Rightarrow> string" where
  "clean_code content =
     strip (if startswith content ''```python'' then slice_from_to_neg 9 3 content
            else if startswith content ''```'' then slice_from_to_neg 3 3 content
            else content)"

text \<open>
  \<^verbatim>\<open>_get_function_signature\<close>. A declared function is its \<^verbatim>\<open>__name__\<close>, its
  \<^verbatim>\<open>__doc__\<close> (absent when there is no docstring) and its \<^verbatim>\<open>__annotations__\<close>; an
  annotation is shown by \<^verbatim>\<open>repr\<close> inside the dictionary and by \<^verbatim>\<open>str\<close> on its own.
\<close>

record annotation =
  an_repr :: string
  an_str :: string

record pyfunc =
  fn_name :: string
  fn_doc :: "string option"
  fn_annotations :: "(string \<times> annotation) list"

definition get_function_signature :: "pyfunc \<Rightarrow> string" where
  "get_function_signature func =
     (let annotations = filter (\<lambda>kv. fst kv \<noteq> ''return'') (fn_annotations func);
          return_type = (case map_of (fn_annotations func) ''return'' of
                           None \<Rightarrow> ''None'' | Some a \<Rightarrow> an_str a)
      in ''Function: '' @ fn_name func @
         '', Doc: '' @ (case fn_doc func of None \<Rightarrow> ''None'' | Some d \<Rightarrow> d) @
         '', Args: '' @ repr_dict an_repr annotations @
         '', Return: '' @ return_type)"

section \<open>Errors and the world outside the module\<close>

text \<open>
  An exception that leaves a method is a value \<open>Inl e\<close>; every method returns its outcome
  together with the state it leaves behind, since the caller keeps the object after an
  exception.
\<close>

datatype error =
    EndpointError | ExecError | KeyError string | TypeError string | OpenAIError | OSError string

text \<open>
  What the module calls and does not define is a parameter: SHA-256 (of the encoded
  string, as a hexadecimal digest), the chat-completion endpoint (its reply may depend on
  the requests made before; a request is the model, the system and the user prompt),
  \<^verbatim>\<open>exec\<close> (which may bind names in the namespace before it raises) and \<^verbatim>\<open>str.upper\<close>.
  Executed code is taken to act on its namespace only, and the file system to hold the
  cache files only: reading and writing them does not fail.
\<close>

type_synonym request = "string \<times> string \<times> string"
type_synonym namespace = "string \<Rightarrow> pyobj option"

record world =
  sha256_hexdigest :: "string \<Rightarrow> string"
  chat_completion :: "request list \<Rightarrow> request \<Rightarrow> error + string"
  py_exec :: "string \<Rightarrow> namespace \<Rightarrow> error option \<times> namespace"
  str_upper :: "string \<Rightarrow> string"

text \<open>\<^verbatim>\<open>d.get(k, default)\<close> and \<^verbatim>\<open>d[k] = v\<close> on an insertion-ordered dictionary.\<close>

definition dict_get :: "('k \<Rightarrow> 'v option) \<Rightarrow> 'k \<Rightarrow> 'v \<Rightarrow> 'v" where
  "dict_get d k fallback = (case d k of None \<Rightarrow> fallback | Some v \<Rightarrow> v)"

fun dict_set :: "('k \<times> 'v) list \<Rightarrow> 'k \<Rightarrow> 'v \<Rightarrow> ('k \<times> 'v) list" where
  "dict_set [] k v = [(k, v)]"
| "dict_set (kv # kvs) k v = (if fst kv = k then (k, v) # kvs else kv # dict_set kvs k v)"

section \<open>\<^verbatim>\<open>BaseGenerator\<close>\<close>

text \<open>
  The state a generator works on: its configuration, the namespace \<^verbatim>\<open>_env\<close>, the cache
  files (path to contents) and the requests sent to the endpoint so far.
\<close>

record base_generator =
  api_key :: "string option"
  cache_dir :: string
  model :: string
  env :: namespace
  files :: "string \<Rightarrow> string option"
  requests :: "request list"

text \<open>
  The keyword arguments of a constructor call: for each recognised keyword, whether it
  was passed and with which value (\<^verbatim>\<open>api_key\<close> and \<^verbatim>\<open>env\<close> may be passed as \<^verbatim>\<open>None\<close>).
\<close>

record generator_kwargs =
  kw_api_key :: "string option option"
  kw_cache_dir :: "string option"
  kw_env :: "namespace option option"
  kw_model :: "string option"

text \<open>
  \<^verbatim>\<open>BaseGenerator.__init__\<close>, given the environment variable \<^verbatim>\<open>OPENAI_API_KEY\<close>, the
  outcome of \<^verbatim>\<open>cache_dir.mkdir(exist_ok=True)\<close> on the file system (an \<^verbatim>\<open>OSError\<close> when the
  parent directory is missing or the path is a file) and the cache files. The defaults
  are those of the signature; \<^verbatim>\<open>x or y\<close> takes \<open>y\<close> when \<open>x\<close> is \<^verbatim>\<open>None\<close> or empty. The
  client is built first and raises when it is given no key and the environment has
  none; it is kept as the key it is built from.
\<close>

definition base_generator_init ::
  "string option \<Rightarrow> (string \<Rightarrow> error option) \<Rightarrow> (string \<Rightarrow> string option) \<Rightarrow> generator_kwargs
   \<Rightarrow> error + base_generator" where
  "base_generator_init getenv mkdir fs kwargs =
     (let key = (case kw_api_key kwargs of
                   Some (Some k) \<Rightarrow> (if k = [] then getenv else Some k)
                 | _ \<Rightarrow> getenv);
          dir = (case kw_cache_dir kwargs of None \<Rightarrow> ''.anything'' | Some d \<Rightarrow> d)
      in if key = None then Inl OpenAIError
         else
           (case mkdir dir of
              Some e \<Rightarrow> Inl e
            | None \<Rightarrow>
                Inr \<lparr>api_key = key,
                     cache_dir = dir,
                     model = (case kw_model kwargs of None \<Rightarrow> ''gpt-4.1-nano'' | Some m \<Rightarrow> m),
                     env = (case kw_env kwargs of Some (Some e) \<Rightarrow> e | _ \<Rightarrow> Map.empty),
                     files = fs,
                     requests = []\<rparr>))"

definition get_cache_path :: "world \<Rightarrow> base_generator \<Rightarrow> string \<Rightarrow> string \<Rightarrow> string" where
  "get_cache_path w g ident cache_key =
     (let hash_key = sha256_hexdigest w cache_key
      in cache_dir g @ ''/'' @ ident @ ''_'' @ hash_key @ ''.py'')"

definition load_from_cache ::
  "world \<Rightarrow> base_generator \<Rightarrow> string \<Rightarrow> string \<Rightarrow> (error + pyobj) \<times> base_generator" where
  "load_from_cache w g cache_path func_name =
     (case files g cache_path of
        Some code \<Rightarrow>
          (case py_exec w code (env g) of
             (Some e, env') \<Rightarrow> (Inl e, g\<lparr>env := env'\<rparr>)
           | (None, env') \<Rightarrow> (Inr (dict_get env' func_name py_None), g\<lparr>env := env'\<rparr>))
      | None \<Rightarrow> (Inr py_None, g))"

definition generate_code ::
  "world \<Rightarrow> base_generator \<Rightarrow> string \<Rightarrow> string \<Rightarrow> (error + string) \<times> base_generator" where
  "generate_code w g system_prompt user_prompt =
     (let request = (model g, system_prompt, user_prompt);
          g' = g\<lparr>requests := requests g @ [request]\<rparr>
      in case chat_completion w (requests g) request of
           Inl e \<Rightarrow> (Inl e, g')
         | Inr content \<Rightarrow> (Inr (clean_code content), g'))"

definition execute_code ::
  "world \<Rightarrow> base_generator \<Rightarrow> string \<Rightarrow> string \<Rightarrow> (error + pyobj) \<times> base_generator" where
  "execute_code w g code func_name =
     (case py_exec w code (env g) of
        (Some e, env') \<Rightarrow> (Inl e, g\<lparr>env := env'\<rparr>)
      | (None, env') \<Rightarrow>
          (case env' func_name of
             None \<Rightarrow> (Inl (KeyError func_name), g\<lparr>env := env'\<rparr>)
           | Some f \<Rightarrow> (Inr f, g\<lparr>env := env'\<rparr>)))"

definition save_to_cache :: "base_generator \<Rightarrow> string \<Rightarrow> string \<Rightarrow> base_generator" where
  "save_to_cache g cache_path code = g\<lparr>files := (files g)(cache_path \<mapsto> code)\<rparr>"

section \<open>\<^verbatim>\<open>Anything\<close>\<close>

definition anything_init ::
  "string option \<Rightarrow> (string \<Rightarrow> error option) \<Rightarrow> (string \<Rightarrow> string option) \<Rightarrow> generator_kwargs
   \<Rightarrow> error + base_generator" where
  "anything_init getenv mkdir fs kwargs = base_generator_init getenv mkdir fs kwargs"

definition anything_system_prompt :: string where
  "anything_system_prompt =
     ''Generate Python function code based on function signature and docstring. '' @
     ''Return only the function implementation without explanations or function calls.''"

text \<open>\<^verbatim>\<open>Anything.__call__\<close>.\<close>

definition anything_call ::
  "world \<Rightarrow> base_generator \<Rightarrow> pyfunc \<Rightarrow> string \<Rightarrow> (error + pyobj) \<times> base_generator" where
  "anything_call w g func context_text =
     (let signature = get_function_signature func;
          cache_key = signature @ context_text;
          cache_path = get_cache_path w g (fn_name func) cache_key
      in case load_from_cache w g cache_path (fn_name func) of
           (Inl e, g1) \<Rightarrow> (Inl e, g1)
         | (Inr cached_func, g1) \<Rightarrow>
             if ob_truthy cached_func then (Inr cached_func, g1)
             else
               (let user_prompt =
                      (if context_text \<noteq> [] then
                         ''Context of related functions:\<newline>'' @ context_text @
                         ''\<newline>\<newline>Generate code for:\<newline>'' @ signature
                       else signature)
                in case generate_code w g1 anything_system_prompt user_prompt of
                     (Inl e, g2) \<Rightarrow> (Inl e, g2)
                   | (Inr code, g2) \<Rightarrow>
                       (case execute_code w g2 code (fn_name func) of
                          (Inl e, g3) \<Rightarrow> (Inl e, g3)
                        | (Inr func_impl, g3) \<Rightarrow>
                            (Inr func_impl, save_to_cache g3 cache_path code))))"

section \<open>\<^verbatim>\<open>LazyAnything\<close>\<close>

record lazy_anything =
  generator :: base_generator
  registered_functions :: "string \<Rightarrow> pyobj option"
  pending_functions :: "(string \<times> pyfunc) list"
  generated :: bool

definition lazy_anything_init ::
  "string option \<Rightarrow> (string \<Rightarrow> error option) \<Rightarrow> (string \<Rightarrow> string option) \<Rightarrow> generator_kwargs
   \<Rightarrow> error + lazy_anything" where
  "lazy_anything_init getenv mkdir fs kwargs =
     (case anything_init getenv mkdir fs kwargs of
        Inl e \<Rightarrow> Inl e
      | Inr g \<Rightarrow> Inr \<lparr>generator = g, registered_functions = Map.empty,
                      pending_functions = [], generated = False\<rparr>)"

text \<open>\<^verbatim>\<open>register\<close> stores the function under its name; the wrapper it returns is
  \<open>wrapper\<close> below at that name.\<close>

definition register :: "lazy_anything \<Rightarrow> pyfunc \<Rightarrow> lazy_anything" where
  "register s func =
     s\<lparr>pending_functions := dict_set (pending_functions s) (fn_name func) func\<rparr>"

definition build_context :: "lazy_anything \<Rightarrow> string" where
  "build_context s =
     join ''\<newline>'' (map (\<lambda>kv. get_function_signature (snd kv)) (pending_functions s))"

text \<open>The loop of \<^verbatim>\<open>_generate_all\<close>: an exception of the generator leaves the loop with
  the functions registered so far.\<close>

fun generate_pending ::
  "world \<Rightarrow> string \<Rightarrow> (string \<times> pyfunc) list \<Rightarrow> lazy_anything \<Rightarrow> (error + unit) \<times> lazy_anything" where
  "generate_pending w context_text [] s = (Inr (), s)"
| "generate_pending w context_text (kv # rest) s =
     (case anything_call w (generator s) (snd kv) context_text of
        (Inl e, g) \<Rightarrow> (Inl e, s\<lparr>generator := g\<rparr>)
      | (Inr impl, g) \<Rightarrow>
          generate_pending w context_text rest
            (s\<lparr>generator := g,
               registered_functions := (registered_functions s)(fst kv \<mapsto> impl)\<rparr>))"

text \<open>\<^verbatim>\<open>_generate_all\<close>, and the two public methods that call it.\<close>

definition do_generate_all :: "world \<Rightarrow> lazy_anything \<Rightarrow> (error + unit) \<times> lazy_anything" where
  "do_generate_all w s =
     (if generated s then (Inr (), s)
      else
        (let context_text = build_context s
         in case generate_pending w context_text (pending_functions s) s of
              (Inl e, s') \<Rightarrow> (Inl e, s')
            | (Inr u, s') \<Rightarrow> (Inr (), s'\<lparr>generated := True\<rparr>)))"

definition generate_all :: "world \<Rightarrow> lazy_anything \<Rightarrow> (error + unit) \<times> lazy_anything" where
  "generate_all w s = do_generate_all w s"

definition finalize :: "world \<Rightarrow> lazy_anything \<Rightarrow> (error + unit) \<times> lazy_anything" where
  "finalize w s = do_generate_all w s"

text \<open>A call of the wrapper that \<^verbatim>\<open>register\<close> returned for the function named \<open>name\<close>:
  the result is the implementation the call is passed on to.\<close>

definition wrapper :: "world \<Rightarrow> lazy_anything \<Rightarrow> string \<Rightarrow> (error + pyobj) \<times> lazy_anything" where
  "wrapper w s name =
     (case (if generated s then (Inr (), s) else do_generate_all w s) of
        (Inl e, s') \<Rightarrow> (Inl e, s')
      | (Inr u, s') \<Rightarrow>
          (case registered_functions s' name of
             None \<Rightarrow> (Inl (KeyError name), s')
           | Some impl \<Rightarrow> (Inr impl, s')))"

text \<open>The calls a client can make on a \<^verbatim>\<open>LazyAnything\<close>, and the state a sequence of them
  leaves.\<close>

datatype lazy_call = Register pyfunc | GenerateAll | Finalize | CallWrapper string

fun lazy_step :: "world \<Rightarrow> lazy_anything \<Rightarrow> lazy_call \<Rightarrow> lazy_anything" where
  "lazy_step w s (Register func) = register s func"
| "lazy_step w s GenerateAll = snd (generate_all w s)"
| "lazy_step w s Finalize = snd (finalize w s)"
| "lazy_step w s (CallWrapper name) = snd (wrapper w s name)"

definition lazy_run :: "world \<Rightarrow> lazy_anything \<Rightarrow> lazy_call list \<Rightarrow> lazy_anything" where
  "lazy_run w s calls = foldl (lazy_step w) s calls"

section \<open>\<^verbatim>\<open>Everything\<close>\<close>

text \<open>An \<^verbatim>\<open>Everything\<close> is a \<^verbatim>\<open>BaseGenerator\<close> (the field \<open>base\<close>) with the tables
  \<^verbatim>\<open>_functions\<close> and \<^verbatim>\<open>_constants\<close> and the list \<^verbatim>\<open>_context\<close>.\<close>

record everything =
  base :: base_generator
  ev_functions :: "string \<Rightarrow> pyobj option"
  ev_constants :: "string \<Rightarrow> pyobj option"
  ev_context :: "string list"

text \<open>
  \<^verbatim>\<open>Everything.__init__\<close> calls the base constructor with the keyword \<^verbatim>\<open>cache_dir\<close>
  written out (the caller's value, or \<^verbatim>\<open>.everything\<close>) and with all the caller's keywords
  again: Python raises \<^verbatim>\<open>TypeError\<close> when a keyword reaches a call twice, before the
  base constructor runs.
\<close>

definition everything_init ::
  "string option \<Rightarrow> (string \<Rightarrow> error option) \<Rightarrow> (string \<Rightarrow> string option) \<Rightarrow> generator_kwargs
   \<Rightarrow> error + everything" where
  "everything_init getenv mkdir fs kwargs =
     (let cache_dir_arg = (case kw_cache_dir kwargs of None \<Rightarrow> ''.everything'' | Some d \<Rightarrow> d)
      in if kw_cache_dir kwargs \<noteq> None then Inl (TypeError ''cache_dir'')
         else
           (case base_generator_init getenv mkdir fs (kwargs\<lparr>kw_cache_dir := Some cache_dir_arg\<rparr>) of
              Inl e \<Rightarrow> Inl e
            | Inr g \<Rightarrow>
                Inr \<lparr>base = g, ev_functions = Map.empty, ev_constants = Map.empty,
                     ev_context = []\<rparr>))"

definition everything_system_prompt :: string where
  "everything_system_prompt =
     ''Generate Python function implementation based on function name and argument types. '' @
     ''Return only the function code without explanations.''"

definition constant_prompt :: string where
  "constant_prompt =
     ''Generate a Python constant value based on the constant name. '' @
     ''Return only the value assignment without explanations. '' @
     ''Format: CONSTANT_NAME = value''"

definition get_context_string :: "everything \<Rightarrow> string" where
  "get_context_string s =
     (if ev_context s = [] then []
      else ''Previously generated context:\<newline>'' @ join ''\<newline>'' (ev_context s) @
           ''\<newline>\<newline>'')"

definition add_to_context :: "everything \<Rightarrow> string \<Rightarrow> string \<Rightarrow> string \<Rightarrow> everything" where
  "add_to_context s item_type name description =
     (let context_entry = item_type @ '': '' @ name @ '' - '' @ description
      in if context_entry \<in> set (ev_context s) then s
         else s\<lparr>ev_context := ev_context s @ [context_entry]\<rparr>)"

definition generate_function ::
  "world \<Rightarrow> everything \<Rightarrow> string \<Rightarrow> pyobj list \<Rightarrow> (string \<times> pyobj) list
   \<Rightarrow> (error + pyobj) \<times> everything" where
  "generate_function w s func_name args kwargs =
     (let cache_key = get_cache_key func_name args kwargs;
          cache_path = get_cache_path w (base s) func_name cache_key;
          description = ''args: '' @ repr_str_list (arg_types args) @
                        '', kwargs: '' @ repr_dict repr_str (kwarg_types kwargs)
      in case load_from_cache w (base s) cache_path func_name of
           (Inl e, g1) \<Rightarrow> (Inl e, s\<lparr>base := g1\<rparr>)
         | (Inr cached_func, g1) \<Rightarrow>
             if ob_truthy cached_func then
               (Inr cached_func, add_to_context (s\<lparr>base := g1\<rparr>) ''Function'' func_name description)
             else
               (let context_string = get_context_string s;
                    user_prompt =
                      context_string @ ''Function name: '' @ func_name @
                      '', argument types: args: '' @ repr_str_list (arg_types args) @
                      (if kwarg_types kwargs \<noteq> [] then
                         '', kwargs: '' @ repr_dict repr_str (kwarg_types kwargs)
                       else [])
                in case generate_code w g1 everything_system_prompt user_prompt of
                     (Inl e, g2) \<Rightarrow> (Inl e, s\<lparr>base := g2\<rparr>)
                   | (Inr code, g2) \<Rightarrow>
                       (case execute_code w g2 code func_name of
                          (Inl e, g3) \<Rightarrow> (Inl e, s\<lparr>base := g3\<rparr>)
                        | (Inr func_impl, g3) \<Rightarrow>
                            (Inr func_impl,
                             add_to_context (s\<lparr>base := save_to_cache g3 cache_path code\<rparr>)
                               ''Function'' func_name description))))"

text \<open>The lookup both branches of \<^verbatim>\<open>_generate_constant\<close> make in the namespace the
  source was executed in.\<close>

definition constant_lookup :: "world \<Rightarrow> namespace \<Rightarrow> string \<Rightarrow> pyobj" where
  "constant_lookup w local_env const_name =
     dict_get local_env const_name (dict_get local_env (str_upper w const_name) py_None)"

definition generate_constant ::
  "world \<Rightarrow> everything \<Rightarrow> string \<Rightarrow> (error + pyobj) \<times> everything" where
  "generate_constant w s const_name =
     (let cache_key = ''const_'' @ const_name;
          cache_path = get_cache_path w (base s) const_name cache_key
      in case files (base s) cache_path of
           Some code \<Rightarrow>
             (case py_exec w code Map.empty of
                (Some e, local_env) \<Rightarrow> (Inl e, s)
              | (None, local_env) \<Rightarrow>
                  (let val = constant_lookup w local_env const_name
                   in (Inr val,
                       add_to_context s ''Constant'' const_name (''value: '' @ ob_str val))))
         | None \<Rightarrow>
             (let context_string = get_context_string s;
                  user_prompt = context_string @ ''Constant name: '' @ const_name
              in case generate_code w (base s) constant_prompt user_prompt of
                   (Inl e, g1) \<Rightarrow> (Inl e, s\<lparr>base := g1\<rparr>)
                 | (Inr code, g1) \<Rightarrow>
                     (let g2 = save_to_cache g1 cache_path code
                      in case py_exec w code Map.empty of
                           (Some e, local_env) \<Rightarrow> (Inl e, s\<lparr>base := g2\<rparr>)
                         | (None, local_env) \<Rightarrow>
                             (let val = constant_lookup w local_env const_name
                              in (Inr val,
                                  add_to_context (s\<lparr>base := g2\<rparr>) ''Constant'' const_name
                                    (''value: '' @ ob_str val))))))"



definition get_context :: "everything \<Rightarrow> string list" where
  "get_context s = ev_context s"

definition clear_context :: "everything \<Rightarrow> everything" where
  "clear_context s = s\<lparr>ev_context := []\<rparr>"

section \<open>Sample inputs\<close>

text \<open>
  Concrete inputs in the manner of the repository's examples (\<^verbatim>\<open>everything.add(fib1, fib2)\<close>,
  \<^verbatim>\<open>everything["zero"]\<close>, \<^verbatim>\<open>@lazy.register def max_\<close>), at which the theorems below are
  instantiated. The sample world answers a constant request with \<^verbatim>\<open>ZERO = 0\<close>, a function
  request of \<^verbatim>\<open>Everything\<close> with a fenced definition of \<^verbatim>\<open>add\<close>, and fails every other
  request; its digest is a stand-in that separates all keys.
\<close>

definition int_type :: pytype where
  "int_type = \<lparr>type_module = ''builtins'', type_name = ''int''\<rparr>"

definition str_type :: pytype where
  "str_type = \<lparr>type_module = ''builtins'', type_name = ''str''\<rparr>"

definition function_type :: pytype where
  "function_type = \<lparr>type_module = ''builtins'', type_name = ''function''\<rparr>"

definition queue_Queue :: pytype where
  "queue_Queue = \<lparr>type_module = ''queue'', type_name = ''Queue''\<rparr>"

definition asyncio_Queue :: pytype where
  "asyncio_Queue = \<lparr>type_module = ''asyncio.queues'', type_name = ''Queue''\<rparr>"

definition py_int :: "string \<Rightarrow> nat \<Rightarrow> pyobj" where
  "py_int digits ident =
     \<lparr>ob_type = int_type, ob_truthy = (digits \<noteq> ''0''), ob_str = digits, ob_id = ident\<rparr>"

definition py_str :: "string \<Rightarrow> nat \<Rightarrow> pyobj" where
  "py_str text ident =
     \<lparr>ob_type = str_type, ob_truthy = (text \<noteq> []), ob_str = text, ob_id = ident\<rparr>"

definition py_instance :: "pytype \<Rightarrow> nat \<Rightarrow> pyobj" where
  "py_instance t ident =
     \<lparr>ob_type = t, ob_truthy = True, ob_str = ''<'' @ type_name t @ '' object>'', ob_id = ident\<rparr>"

definition py_function :: "string \<Rightarrow> nat \<Rightarrow> pyobj" where
  "py_function name ident =
     \<lparr>ob_type = function_type, ob_truthy = True, ob_str = ''<function '' @ name @ ''>'',
      ob_id = ident\<rparr>"

definition ascii_upper :: "string \<Rightarrow> string" where
  "ascii_upper s =
     map (\<lambda>c. let n = (of_char c :: nat) in if 97 \<le> n \<and> n \<le> 122 then char_of (n - 32) else c) s"

definition add_source :: string where
  "add_source = ''def add(a, b): return a + b''"

definition sample_reply :: string where
  "sample_reply = ''```python\<newline>'' @ add_source @ ''\<newline>```''"

definition sample_world :: world where
  "sample_world =
     \<lparr>sha256_hexdigest = (\<lambda>key. key),
      chat_completion = (\<lambda>history request.
         if fst (snd request) = constant_prompt then Inr ''ZERO = 0''
         else if fst (snd request) = everything_system_prompt then
           Inr sample_reply
         else Inl EndpointError),
      py_exec = (\<lambda>code ns.
         if code = add_source then (None, ns(''add'' \<mapsto> py_function ''add'' 1))
         else if code = ''ZERO = 0'' then (None, ns(''ZERO'' \<mapsto> py_int ''0'' 2))
         else (Some ExecError, ns)),
      str_upper = ascii_upper\<rparr>"

definition no_kwargs :: generator_kwargs where
  "no_kwargs = \<lparr>kw_api_key = None, kw_cache_dir = None, kw_env = None, kw_model = None\<rparr>"

definition sample_generator :: base_generator where
  "sample_generator =
     \<lparr>api_key = Some ''sk-sample'', cache_dir = ''.anything'', model = ''gpt-4.1-nano'',
      env = Map.empty, files = Map.empty, requests = []\<rparr>"

definition sample_everything :: everything where
  "sample_everything =
     \<lparr>base = sample_generator\<lparr>cache_dir := ''.everything''\<rparr>,
      ev_functions = Map.empty, ev_constants = Map.empty, ev_context = []\<rparr>"

definition max_func :: pyfunc where
  "max_func =
     \<lparr>fn_name = ''max_'', fn_doc = Some ''Return max number'',
      fn_annotations =
        [(''a'', \<lparr>an_repr = ''<class 'int'>'', an_str = ''<class 'int'>''\<rparr>),
         (''b'', \<lparr>an_repr = ''<class 'int'>'', an_str = ''<class 'int'>''\<rparr>),
         (''return'', \<lparr>an_repr = ''<class 'int'>'', an_str = ''<class 'int'>''\<rparr>)]\<rparr>"

definition calculator_func :: pyfunc where
  "calculator_func =
     \<lparr>fn_name = ''calculator'', fn_doc = Some ''Return calculation! VERY SAFE'',
      fn_annotations =
        [(''exp'', \<lparr>an_repr = ''<class 'str'>'', an_str = ''<class 'str'>''\<rparr>),
         (''return'', \<lparr>an_repr = ''<class 'int'>'', an_str = ''<class 'int'>''\<rparr>)]\<rparr>"

definition late_max_func :: pyfunc where
  "late_max_func =
     \<lparr>fn_name = ''max_'', fn_doc = Some ''Return the largest of three numbers'',
      fn_annotations =
        [(''a'', \<lparr>an_repr = ''<class 'int'>'', an_str = ''<class 'int'>''\<rparr>),
         (''b'', \<lparr>an_repr = ''<class 'int'>'', an_str = ''<class 'int'>''\<rparr>),
         (''c'', \<lparr>an_repr = ''<class 'int'>'', an_str = ''<class 'int'>''\<rparr>),
         (''return'', \<lparr>an_repr = ''<class 'int'>'', an_str = ''<class 'int'>''\<rparr>)]\<rparr>"

definition sample_lazy_generated :: lazy_anything where
  "sample_lazy_generated =
     \<lparr>generator = sample_generator,
      registered_functions = [''max_'' \<mapsto> py_function ''max_'' 3],
      pending_functions = [(''max_'', max_func)],
      generated = True\<rparr>"

section \<open>A reader of escaped characters\<close>

text \<open>
  Used in the proofs only: \<open>unescape\<close> reads one character back from the front of text
  that \<open>escape_char\<close> wrote, whatever follows it.
\<close>

definition unhex :: "char \<Rightarrow> nat" where
  "unhex c = (let n = (of_char c :: nat) in if n < 58 then n - 48 else n - 87)"

fun unescape :: "string \<Rightarrow> (char \<times> string) option" where
  "unescape [] = None"
| "unescape [c] = (if c = backslash then None else Some (c, []))"
| "unescape (c # e # rest) =
     (if c \<noteq> backslash then Some (c, e # rest)
      else if e = CHR ''t'' then Some (CHR 0x09, rest)
      else if e = CHR ''n'' then Some (CHR 0x0A, rest)
      else if e = CHR ''r'' then Some (CHR 0x0D, rest)
      else if e = CHR ''x'' then
        (case rest of
           h1 # h2 # rest' \<Rightarrow> Some (char_of (16 * unhex h1 + unhex h2), rest')
         | _ \<Rightarrow> None)
      else Some (e, rest))"

section \<open>Code fences: \<^verbatim>\<open>_clean_code\<close>\<close>

lemma strip_padded:
  assumes "is_space a" "is_space b"
  shows "strip (a # body @ [b]) = strip body"
proof -
  have "dropWhile is_space (a # body @ [b]) = dropWhile is_space (body @ [b])"
    using assms by simp
  also have "\<dots> = (if \<forall>x\<in>set body. is_space x then [] else dropWhile is_space body @ [b])"
    using assms by (simp add: dropWhile_append)
  finally have eq: "dropWhile is_space (a # body @ [b]) =
    (if \<forall>x\<in>set body. is_space x then [] else dropWhile is_space body @ [b])" .
  show ?thesis
  proof (cases "\<forall>x\<in>set body. is_space x")
    case True
    have l: "dropWhile is_space (a # body @ [b]) = []"
      using eq True by simp
    have r: "dropWhile is_space body = []"
      using True by simp
    show ?thesis unfolding strip_def l r by simp
  next
    case False
    have l: "dropWhile is_space (a # body @ [b]) = dropWhile is_space body @ [b]"
      using eq False by simp
    show ?thesis unfolding strip_def l using assms by simp
  qed
qed

lemma startswith_shorter:
  assumes "startswith s (p @ q)"
  shows "startswith s p"
proof -
  from assms have a: "take (length (p @ q)) s = p @ q" by (simp only: startswith_def)
  have "take (length p) s = take (length p) (take (length (p @ q)) s)"
    by (simp add: min_def)
  also have "\<dots> = take (length p) (p @ q)" by (simp only: a)
  also have "\<dots> = p" by simp
  finally show ?thesis by (simp only: startswith_def)
qed

lemma clean_code_plain:
  assumes "\<not> startswith body ''```''"
  shows "clean_code body = strip body"
proof -
  have "\<not> startswith body ''```python''"
    using startswith_shorter[of body "''```''" "''python''"] assms by auto
  with assms show ?thesis by (simp add: clean_code_def)
qed

lemma strip_left:
  assumes "list_all is_space ws"
  shows "strip (ws @ s) = strip s"
proof -
  from assms have "dropWhile is_space (ws @ s) = dropWhile is_space s"
    by (induction ws) simp_all
  then show ?thesis by (simp only: strip_def)
qed

lemma strip_snoc:
  assumes "is_space b"
  shows "strip (s @ [b]) = strip s"
  using strip_padded[of "CHR '' ''" b s] strip_left[of "[CHR '' '']" "s @ [b]"]
    strip_left[of "[CHR '' '']" s] assms
  by (simp add: is_space_def)

lemma strip_right:
  assumes "list_all is_space ws"
  shows "strip (s @ ws) = strip s"
  using assms
proof (induction ws rule: rev_induct)
  case Nil
  then show ?case by simp
next
  case (snoc b ws)
  then have "is_space b" and "list_all is_space ws" by simp_all
  from strip_snoc[OF this(1), of "s @ ws"] snoc.IH[OF this(2)]
  show ?case by simp
qed

lemma clean_code_python_fence_padded:
  assumes "list_all is_space ws1" "list_all is_space ws2"
  shows "clean_code (''```python'' @ ws1 @ body @ ws2 @ ''```'') = strip body"
proof -
  have "slice_from_to_neg 9 3 (''```python'' @ ws1 @ body @ ws2 @ ''```'') = ws1 @ body @ ws2"
    by (simp add: slice_from_to_neg_def)
  moreover have "strip (ws1 @ body @ ws2) = strip body"
    using strip_left[OF assms(1), of "body @ ws2"] strip_right[OF assms(2), of body] by simp
  ultimately show ?thesis
    by (simp add: clean_code_def startswith_def)
qed

lemma clean_code_bare_fence_padded:
  assumes "is_space c" "list_all is_space ws1" "list_all is_space ws2"
  shows "clean_code (''```'' @ [c] @ ws1 @ body @ ws2 @ ''```'') = strip body"
proof -
  have "slice_from_to_neg 3 3 (''```'' @ [c] @ ws1 @ body @ ws2 @ ''```'') = (c # ws1) @ body @ ws2"
    by (simp add: slice_from_to_neg_def)
  moreover have "strip ((c # ws1) @ body @ ws2) = strip body"
    using strip_left[of "c # ws1" "body @ ws2"] strip_right[OF assms(3), of body] assms(1,2)
    by simp
  moreover from assms(1) have "c \<noteq> CHR ''p''" by (auto simp add: is_space_def)
  ultimately show ?thesis
    by (simp add: clean_code_def startswith_def)
qed

text \<open>
  Claim C3, as the code has it. Take a body that does not itself start with three
  backticks. Fenced with the tag \<^verbatim>\<open>python\<close>, with any white space (or none) between the
  fence markers and the body, or fenced with no tag, with at least one white-space
  character such as the newline after the opening marker, the reply is cleaned to the
  same text as the unfenced body: the body stripped of white space. Only the tag
  \<^verbatim>\<open>python\<close> is recognised: \<open>clean_code\<close> tests for that prefix and for the bare fence,
  nothing else.
\<close>

theorem clean_code_fenced_eq_unfenced:
  assumes "\<not> startswith body ''```''"
    and "list_all is_space p1" and "list_all is_space p2"
    and "is_space c" and "list_all is_space b1" and "list_all is_space b2"
  shows "clean_code (''```python'' @ p1 @ body @ p2 @ ''```'') = clean_code body
       \<and> clean_code (''```'' @ [c] @ b1 @ body @ b2 @ ''```'') = clean_code body
       \<and> clean_code body = strip body"
  using assms
  by (simp only: clean_code_plain clean_code_python_fence_padded clean_code_bare_fence_padded
      simp_thms)

theorem clean_code_fenced_eq_unfenced_witness:
  "\<not> startswith ''x = 1'' ''```''
   \<and> is_space CHR ''\<newline>''
   \<and> clean_code (''```python'' @ ''\<newline>'' @ ''x = 1'' @ ''\<newline>'' @ ''```'') = clean_code ''x = 1''
   \<and> clean_code (''```'' @ ''\<newline>'' @ [] @ ''x = 1'' @ ''\<newline>'' @ ''```'') = clean_code ''x = 1''
   \<and> clean_code ''x = 1'' = ''x = 1''"
proof -
  have h: "\<not> startswith ''x = 1'' ''```''" by (simp add: startswith_def)
  have n: "is_space CHR ''\<newline>''" by (simp add: is_space_def)
  then have l: "list_all is_space ''\<newline>''" by simp
  have e: "list_all is_space []" by simp
  have s: "strip ''x = 1'' = ''x = 1''" by (simp add: strip_def is_space_def)
  from clean_code_fenced_eq_unfenced[OF h l l n e l] h n s show ?thesis by simp
qed

text \<open>
  The claim as the specification words it fails twice: with another language tag
  (\<^verbatim>\<open>py\<close>) the tag stays in the cleaned text, and an unfenced body that itself starts
  with three backticks loses its first and last three characters.
\<close>

theorem clean_code_fenced_counterexample:
  "clean_code (''```py'' @ ''\<newline>'' @ ''x = 1'' @ ''\<newline>'' @ ''```'') = ''py'' @ ''\<newline>'' @ ''x = 1''
   \<and> clean_code ''x = 1'' = ''x = 1''
   \<and> clean_code (''```py'' @ ''\<newline>'' @ ''x = 1'' @ ''\<newline>'' @ ''```'') \<noteq> clean_code ''x = 1''
   \<and> clean_code (''```python'' @ ''\<newline>'' @ ''```'' @ ''\<newline>'' @ ''```'') = ''```''
   \<and> clean_code ''```'' = []
   \<and> clean_code (''```python'' @ ''\<newline>'' @ ''```'' @ ''\<newline>'' @ ''```'') \<noteq> clean_code ''```''"
  by (simp add: clean_code_def startswith_def slice_from_to_neg_def strip_def is_space_def)

section \<open>The cache key determines the argument type names\<close>

text \<open>
  The formatted key can be read back: \<open>repr_str\<close> is a prefix code (no text it writes
  is a proper prefix of another), and so are the list and the dictionary built from it.
\<close>

lemma unhex_hexdigit: "d < 16 \<Longrightarrow> unhex (hexdigit d) = d"
  by (simp add: unhex_def hexdigit_def)

lemma unhex_hex2_nat:
  assumes "(n::nat) < 256"
  shows "16 * unhex (hexdigit (n div 16)) + unhex (hexdigit (n mod 16)) = n"
proof -
  from assms have "n div 16 < 16" by arith
  moreover have "n mod 16 < 16" by simp
  ultimately show ?thesis by (simp add: unhex_hexdigit)
qed

lemma unhex_hex2:
  "char_of (16 * unhex (hexdigit (of_char c div 16)) + unhex (hexdigit (of_char c mod 16))) = c"
  using unhex_hex2_nat[of "of_char c"] by simp

lemma unescape_plain: "c \<noteq> backslash \<Longrightarrow> unescape (c # r) = Some (c, r)"
  by (cases r) simp_all

lemma unescape_escape_char:
  assumes "q = squote \<or> q = dquote"
  shows "unescape (escape_char q c @ r) = Some (c, r)"
proof -
  consider (quoted) "c = q \<or> c = backslash"
    | (tab) "c = CHR 0x09" | (lf) "c = CHR 0x0A" | (cr) "c = CHR 0x0D"
    | (copy) "c \<noteq> q" "c \<noteq> backslash" "c \<noteq> CHR 0x09" "c \<noteq> CHR 0x0A" "c \<noteq> CHR 0x0D" "is_printable c"
    | (hex) "c \<noteq> q" "c \<noteq> backslash" "c \<noteq> CHR 0x09" "c \<noteq> CHR 0x0A" "c \<noteq> CHR 0x0D" "\<not> is_printable c"
    by blast
  then show ?thesis
  proof cases
    case quoted
    with assms show ?thesis by (auto simp add: escape_char_def)
  next
    case tab
    with assms show ?thesis by (auto simp add: escape_char_def)
  next
    case lf
    with assms show ?thesis by (auto simp add: escape_char_def)
  next
    case cr
    with assms show ?thesis by (auto simp add: escape_char_def)
  next
    case copy
    then show ?thesis by (simp add: escape_char_def unescape_plain)
  next
    case hex
    then show ?thesis by (simp add: escape_char_def hex2_def unhex_hex2)
  qed
qed

lemma escape_char_not_quote:
  assumes "q = squote \<or> q = dquote"
  shows "escape_char q c @ r \<noteq> q # r'"
proof
  assume e: "escape_char q c @ r = q # r'"
  have "unescape (escape_char q c @ r) = Some (c, r)"
    using assms by (rule unescape_escape_char)
  moreover have "unescape (q # r') = Some (q, r')"
    using assms by (auto simp add: unescape_plain)
  ultimately have "c = q" using e by simp
  then have "escape_char q c = [backslash, q]" by (simp add: escape_char_def)
  with e assms show False by auto
qed

lemma escape_body_inj:
  assumes q: "q = squote \<or> q = dquote"
  shows "concat (map (escape_char q) s) @ q # r = concat (map (escape_char q) t) @ q # r'
         \<Longrightarrow> s = t \<and> r = r'"
proof (induction s arbitrary: t)
  case Nil
  show ?case
  proof (cases t)
    case Nil
    from Nil.prems[unfolded Nil] show ?thesis unfolding Nil
      by (simp only: list.map concat.simps append_Nil list.inject simp_thms)
  next
    case (Cons d t')
    from Nil.prems[unfolded Cons]
    have "escape_char q d @ (concat (map (escape_char q) t') @ q # r') = q # r"
      by (simp only: list.map concat.simps append_Nil append_assoc)
    with escape_char_not_quote[OF q] show ?thesis by blast
  qed
next
  case (Cons c s')
  show ?case
  proof (cases t)
    case Nil
    from Cons.prems[unfolded Nil]
    have "escape_char q c @ (concat (map (escape_char q) s') @ q # r) = q # r'"
      by (simp only: list.map concat.simps append_Nil append_assoc)
    with escape_char_not_quote[OF q] show ?thesis by blast
  next
    case (Cons d t')
    let ?A = "concat (map (escape_char q) s') @ q # r"
    let ?B = "concat (map (escape_char q) t') @ q # r'"
    from Cons.prems[unfolded Cons]
    have e: "escape_char q c @ ?A = escape_char q d @ ?B"
      by (simp only: list.map concat.simps append_assoc)
    have "unescape (escape_char q c @ ?A) = Some (c, ?A)"
      using q by (rule unescape_escape_char)
    moreover have "unescape (escape_char q d @ ?B) = Some (d, ?B)"
      using q by (rule unescape_escape_char)
    ultimately have "Some (c, ?A) = Some (d, ?B)" by (simp only: e)
    then have cd: "c = d" and ab: "?A = ?B" by (simp_all only: option.inject prod.inject)
    from Cons.IH[OF ab] have "s' = t' \<and> r = r'" .
    with cd show ?thesis unfolding Cons by (simp only: list.inject simp_thms)
  qed
qed


lemma repr_quote_cases: "repr_quote s = squote \<or> repr_quote s = dquote"
  by (simp add: repr_quote_def)

lemma repr_str_prefix_free:
  assumes "repr_str s @ r = repr_str t @ r'"
  shows "s = t \<and> r = r'"
proof -
  let ?q = "repr_quote s"
  from assms have hd: "repr_quote s = repr_quote t"
    by (simp add: repr_str_def Let_def)
  from assms have "?q # (concat (map (escape_char ?q) s) @ ?q # r) =
                   ?q # (concat (map (escape_char ?q) t) @ ?q # r')"
    unfolding repr_str_def Let_def hd[symmetric] by (simp only: append_Cons append_assoc append_Nil)
  then have "concat (map (escape_char ?q) s) @ ?q # r = concat (map (escape_char ?q) t) @ ?q # r'"
    by (simp only: list.inject simp_thms)
  with escape_body_inj[OF repr_quote_cases] show ?thesis by blast
qed

lemma repr_str_head:
  "\<exists>q rest. repr_str s = q # rest \<and> (q = squote \<or> q = dquote)"
  using repr_quote_cases[of s] by (simp add: repr_str_def Let_def)

lemma join_Cons:
  "join sep (x # xs) = x @ (if xs = [] then [] else sep @ join sep xs)"
  by (cases xs) simp_all

lemma join_prefix_free:
  assumes pf: "\<And>x y a b. enc x @ a = enc y @ b \<Longrightarrow> x = y \<and> a = b"
    and hd: "\<And>x. \<exists>q rest. enc x = q # rest \<and> (q = squote \<or> q = dquote)"
    and close: "close \<noteq> squote" "close \<noteq> dquote" "close \<noteq> CHR '',''"
  shows "join '', '' (map enc xs) @ close # r = join '', '' (map enc ys) @ close # r'
         \<Longrightarrow> xs = ys \<and> r = r'"
proof (induction xs arbitrary: ys)
  case Nil
  show ?case
  proof (cases ys)
    case Nil
    from Nil.prems[unfolded Nil] show ?thesis unfolding Nil
      by (simp only: list.map join.simps append_Nil list.inject simp_thms)
  next
    case (Cons y ys')
    obtain q rest where e: "enc y = q # rest" and q: "q = squote \<or> q = dquote"
      using hd[of y] by blast
    from Nil.prems[unfolded Cons] have "close # r = enc y @ (if map enc ys' = [] then [] else '', '' @ join '', '' (map enc ys')) @ close # r'"
      by (simp only: list.map join.simps join_Cons append_Nil append_assoc)
    then have "close = q" unfolding e by (simp only: append_Cons list.inject)
    with q close show ?thesis by blast
  qed
next
  case (Cons x xs')
  show ?case
  proof (cases ys)
    case Nil
    obtain q rest where e: "enc x = q # rest" and q: "q = squote \<or> q = dquote"
      using hd[of x] by blast
    from Cons.prems[unfolded Nil] have "enc x @ (if map enc xs' = [] then [] else '', '' @ join '', '' (map enc xs')) @ close # r = close # r'"
      by (simp only: list.map join.simps join_Cons append_Nil append_assoc)
    then have "q = close" unfolding e by (simp only: append_Cons list.inject)
    with q close show ?thesis by blast
  next
    case (Cons y ys')
    let ?tx = "(if map enc xs' = [] then [] else '', '' @ join '', '' (map enc xs')) @ close # r"
    let ?ty = "(if map enc ys' = [] then [] else '', '' @ join '', '' (map enc ys')) @ close # r'"
    from Cons.prems[unfolded Cons] have "enc x @ ?tx = enc y @ ?ty"
      by (simp only: list.map join_Cons append_assoc)
    from pf[OF this] have xy: "x = y" and t: "?tx = ?ty" by blast+
    show ?thesis
    proof (cases "xs' = []")
      case True
      show ?thesis
      proof (cases "ys' = []")
        case True
        with \<open>xs' = []\<close> t xy show ?thesis unfolding Cons by simp
      next
        case False
        with \<open>xs' = []\<close> t have "close = CHR '',''" by simp
        with close show ?thesis by blast
      qed
    next
      case False
      show ?thesis
      proof (cases "ys' = []")
        case True
        with \<open>xs' \<noteq> []\<close> t have "CHR '','' = close" by simp
        with close show ?thesis by blast
      next
        case False
        with \<open>xs' \<noteq> []\<close> t
        have "join '', '' (map enc xs') @ close # r = join '', '' (map enc ys') @ close # r'"
          by simp
        from Cons.IH[OF this] xy show ?thesis unfolding Cons by simp
      qed
    qed
  qed
qed




lemma repr_str_list_prefix_free:
  assumes "repr_str_list xs @ r = repr_str_list ys @ r'"
  shows "xs = ys \<and> r = r'"
proof -
  have u: "\<And>zs t. repr_str_list zs @ t = CHR ''['' # (join '', '' (map repr_str zs) @ CHR '']'' # t)"
    by (simp add: repr_str_list_def)
  from assms have eq: "join '', '' (map repr_str xs) @ CHR '']'' # r =
                   join '', '' (map repr_str ys) @ CHR '']'' # r'"
    by (simp only: u list.inject simp_thms)
  show ?thesis
  proof (rule join_prefix_free[where enc = repr_str and close = "CHR '']''",
            OF repr_str_prefix_free repr_str_head])
    show "CHR '']'' \<noteq> squote" by simp
    show "CHR '']'' \<noteq> dquote" by simp
    show "CHR '']'' \<noteq> CHR '',''" by simp
    show "join '', '' (map repr_str xs) @ CHR '']'' # r =
          join '', '' (map repr_str ys) @ CHR '']'' # r'" by (rule eq)
  qed
qed

lemma repr_item_prefix_free:
  assumes "repr_item repr_str kv @ a = repr_item repr_str kv' @ b"
  shows "kv = kv' \<and> a = b"
proof -
  have u: "\<And>p t. repr_item repr_str p @ t = repr_str (fst p) @ (CHR '':'' # CHR '' '' # (repr_str (snd p) @ t))"
    by (simp add: repr_item_def)
  from assms have "repr_str (fst kv) @ (CHR '':'' # CHR '' '' # (repr_str (snd kv) @ a)) =
                   repr_str (fst kv') @ (CHR '':'' # CHR '' '' # (repr_str (snd kv') @ b))"
    by (simp only: u)
  from repr_str_prefix_free[OF this]
  have k: "fst kv = fst kv'"
    and t: "CHR '':'' # CHR '' '' # (repr_str (snd kv) @ a) = CHR '':'' # CHR '' '' # (repr_str (snd kv') @ b)"
    by blast+
  from t have "repr_str (snd kv) @ a = repr_str (snd kv') @ b"
    by (simp only: list.inject simp_thms)
  from repr_str_prefix_free[OF this] have v: "snd kv = snd kv'" and ab: "a = b" by blast+
  from k v have "kv = kv'" by (rule prod_eqI)
  with ab show ?thesis by blast
qed

lemma repr_item_head:
  "\<exists>q rest. repr_item repr_str kv = q # rest \<and> (q = squote \<or> q = dquote)"
proof -
  obtain q rest where "repr_str (fst kv) = q # rest" and q: "q = squote \<or> q = dquote"
    using repr_str_head[of "fst kv"] by blast
  then have "repr_item repr_str kv = q # (rest @ '': '' @ repr_str (snd kv))"
    by (simp add: repr_item_def)
  with q show ?thesis by blast
qed

lemma repr_dict_prefix_free:
  assumes "repr_dict repr_str xs @ r = repr_dict repr_str ys @ r'"
  shows "xs = ys \<and> r = r'"
proof -
  have u: "\<And>zs t. repr_dict repr_str zs @ t =
             CHR ''{'' # (join '', '' (map (repr_item repr_str) zs) @ CHR ''}'' # t)"
    by (simp add: repr_dict_def)
  from assms have eq: "join '', '' (map (repr_item repr_str) xs) @ CHR ''}'' # r =
                   join '', '' (map (repr_item repr_str) ys) @ CHR ''}'' # r'"
    by (simp only: u list.inject simp_thms)
  show ?thesis
  proof (rule join_prefix_free[where enc = "repr_item repr_str" and close = "CHR ''}''",
            OF repr_item_prefix_free repr_item_head])
    show "CHR ''}'' \<noteq> squote" by simp
    show "CHR ''}'' \<noteq> dquote" by simp
    show "CHR ''}'' \<noteq> CHR '',''" by simp
    show "join '', '' (map (repr_item repr_str) xs) @ CHR ''}'' # r =
          join '', '' (map (repr_item repr_str) ys) @ CHR ''}'' # r'" by (rule eq)
  qed
qed

lemma get_cache_key_eq_iff:
  "get_cache_key n a1 k1 = get_cache_key n a2 k2 \<longleftrightarrow>
     arg_types a1 = arg_types a2 \<and> kwarg_types k1 = kwarg_types k2"
proof
  assume e: "get_cache_key n a1 k1 = get_cache_key n a2 k2"
  have u: "\<And>a k. get_cache_key n a k =
     (n @ ''_'') @ (repr_str_list (arg_types a) @ (CHR ''_'' # (repr_dict repr_str (kwarg_types k) @ [])))"
    by (simp add: get_cache_key_def)
  from e have "repr_str_list (arg_types a1) @ (CHR ''_'' # (repr_dict repr_str (kwarg_types k1) @ [])) =
             repr_str_list (arg_types a2) @ (CHR ''_'' # (repr_dict repr_str (kwarg_types k2) @ []))"
    by (simp only: u same_append_eq)
  from repr_str_list_prefix_free[OF this]
  have a: "arg_types a1 = arg_types a2"
    and t: "CHR ''_'' # (repr_dict repr_str (kwarg_types k1) @ []) =
            CHR ''_'' # (repr_dict repr_str (kwarg_types k2) @ [])"
    by blast+
  from t have "repr_dict repr_str (kwarg_types k1) @ [] = repr_dict repr_str (kwarg_types k2) @ []"
    by (simp only: list.inject simp_thms)
  from repr_dict_prefix_free[OF this] a
  show "arg_types a1 = arg_types a2 \<and> kwarg_types k1 = kwarg_types k2" by blast
next
  assume "arg_types a1 = arg_types a2 \<and> kwarg_types k1 = kwarg_types k2"
  then show "get_cache_key n a1 k1 = get_cache_key n a2 k2"
    by (simp add: get_cache_key_def)
qed

lemma get_cache_path_eq_iff:
  "get_cache_path w g n k1 = get_cache_path w g n k2 \<longleftrightarrow>
     sha256_hexdigest w k1 = sha256_hexdigest w k2"
  by (simp add: get_cache_path_def Let_def)


text \<open>
  A path holds the digest of the key, not the key: whatever the digest function, as long
  as its digests have 64 characters, some two instances of types with different names
  get different keys and the same path.
\<close>

lemma finite_digests: "finite {d :: string. length d = 64}"
  using finite_lists_length_eq[of "UNIV :: char set" 64] by simp

lemma digest_collision:
  assumes "\<And>k. length (sha256_hexdigest w k) = 64"
  shows "\<exists>t1 t2. t1 \<noteq> t2 \<and>
           get_cache_key n [py_instance \<lparr>type_module = m, type_name = t1\<rparr> 0] [] \<noteq>
           get_cache_key n [py_instance \<lparr>type_module = m, type_name = t2\<rparr> 0] [] \<and>
           get_cache_path w g n (get_cache_key n [py_instance \<lparr>type_module = m, type_name = t1\<rparr> 0] []) =
           get_cache_path w g n (get_cache_key n [py_instance \<lparr>type_module = m, type_name = t2\<rparr> 0] [])"
proof -
  let ?key = "\<lambda>t. get_cache_key n [py_instance \<lparr>type_module = m, type_name = t\<rparr> 0] []"
  let ?h = "\<lambda>t. sha256_hexdigest w (?key t)"
  have "range ?h \<subseteq> {d. length d = 64}" using assms by auto
  then have "finite (range ?h)" using finite_digests by (rule finite_subset)
  moreover have "infinite (UNIV :: string set)" by (rule infinite_UNIV_listI)
  ultimately have "\<not> inj ?h" using finite_imageD by blast
  then obtain t1 t2 where d: "t1 \<noteq> t2" and "?h t1 = ?h t2"
    unfolding inj_on_def by blast
  then have "get_cache_path w g n (?key t1) = get_cache_path w g n (?key t2)"
    by (simp only: get_cache_path_eq_iff)
  moreover from d have "?key t1 \<noteq> ?key t2"
    by (simp add: get_cache_key_eq_iff arg_types_def py_instance_def)
  ultimately show ?thesis using d by blast
qed

section \<open>Claims on the key deriver\<close>

text \<open>
  Claim C1, as the code has it. The key holds the \<^verbatim>\<open>__name__\<close> of each argument's type,
  so two calls of one function name whose positional type names or keyword type names
  differ get different keys; their cache paths are equal exactly when the digests of the
  two keys are.
\<close>

theorem cache_key_differs_when_type_names_differ:
  assumes "arg_types args1 \<noteq> arg_types args2 \<or> kwarg_types kwargs1 \<noteq> kwarg_types kwargs2"
  shows "get_cache_key n args1 kwargs1 \<noteq> get_cache_key n args2 kwargs2
       \<and> (get_cache_path w g n (get_cache_key n args1 kwargs1) =
            get_cache_path w g n (get_cache_key n args2 kwargs2)
          \<longleftrightarrow> sha256_hexdigest w (get_cache_key n args1 kwargs1) =
               sha256_hexdigest w (get_cache_key n args2 kwargs2))"
  using assms by (simp only: get_cache_key_eq_iff get_cache_path_eq_iff) blast

theorem cache_key_differs_when_type_names_differ_witness:
  "arg_types [py_str ''7'' 1] \<noteq> arg_types [py_int ''7'' 2]
   \<and> get_cache_key ''to_int'' [py_str ''7'' 1] [] \<noteq> get_cache_key ''to_int'' [py_int ''7'' 2] []
   \<and> get_cache_path sample_world sample_generator ''to_int'' (get_cache_key ''to_int'' [py_str ''7'' 1] [])
     \<noteq> get_cache_path sample_world sample_generator ''to_int'' (get_cache_key ''to_int'' [py_int ''7'' 2] [])"
proof -
  have a: "arg_types [py_str ''7'' 1] \<noteq> arg_types [py_int ''7'' 2]"
    by (simp add: arg_types_def py_str_def py_int_def str_type_def int_type_def)
  then have h: "arg_types [py_str ''7'' 1] \<noteq> arg_types [py_int ''7'' 2]
                \<or> kwarg_types [] \<noteq> kwarg_types []"
    by blast
  have d: "sha256_hexdigest sample_world = (\<lambda>key. key)"
    by (simp add: sample_world_def)
  from cache_key_differs_when_type_names_differ[OF h, of "''to_int''" sample_world sample_generator] a
  show ?thesis unfolding d by blast
qed

text \<open>
  The claim as the specification words it fails: two different types of one name, such
  as \<^verbatim>\<open>queue.Queue\<close> and \<^verbatim>\<open>asyncio.Queue\<close>, give the same key and the same path.
\<close>

theorem cache_key_same_name_types_counterexample:
  "ob_type (py_instance queue_Queue 1) \<noteq> ob_type (py_instance asyncio_Queue 2)
   \<and> get_cache_key ''put'' [py_instance queue_Queue 1] [] =
     get_cache_key ''put'' [py_instance asyncio_Queue 2] []
   \<and> get_cache_path sample_world sample_generator ''put'' (get_cache_key ''put'' [py_instance queue_Queue 1] []) =
     get_cache_path sample_world sample_generator ''put'' (get_cache_key ''put'' [py_instance asyncio_Queue 2] [])"
  by (simp add: get_cache_key_def arg_types_def py_instance_def queue_Queue_def asyncio_Queue_def)

lemma kwarg_types_zip:
  "kwarg_types kwargs = zip (map fst kwargs) (map type_name (map (\<lambda>kv. ob_type (snd kv)) kwargs))"
  by (induction kwargs) (simp_all add: kwarg_types_def)

lemma arg_types_map: "arg_types args = map type_name (map ob_type args)"
  by (simp add: arg_types_def)

text \<open>
  Claim C2, as the code has it. Two calls of one function name whose positional
  arguments have the same types position by position and whose keyword arguments are
  the same keywords in the same order with the same types get the same key and the same
  path, whatever the values.
\<close>

theorem cache_key_same_when_types_same:
  assumes "map ob_type args1 = map ob_type args2"
    and "map fst kwargs1 = map fst kwargs2"
    and "map (\<lambda>kv. ob_type (snd kv)) kwargs1 = map (\<lambda>kv. ob_type (snd kv)) kwargs2"
  shows "get_cache_key n args1 kwargs1 = get_cache_key n args2 kwargs2
       \<and> get_cache_path w g n (get_cache_key n args1 kwargs1) =
         get_cache_path w g n (get_cache_key n args2 kwargs2)"
proof -
  have "arg_types args1 = arg_types args2"
    by (simp only: arg_types_map assms)
  moreover have "kwarg_types kwargs1 = kwarg_types kwargs2"
    by (simp only: kwarg_types_zip assms)
  ultimately have "get_cache_key n args1 kwargs1 = get_cache_key n args2 kwargs2"
    by (simp only: get_cache_key_eq_iff simp_thms)
  then show ?thesis by simp
qed

theorem cache_key_same_when_types_same_witness:
  "map ob_type [py_int ''1'' 1, py_int ''1'' 2] = map ob_type [py_int ''2'' 3, py_int ''3'' 4]
   \<and> map fst [(''prompt'', py_str ''n: '' 5)] = map fst [(''prompt'', py_str ''value: '' 6)]
   \<and> get_cache_key ''add'' [py_int ''1'' 1, py_int ''1'' 2] [(''prompt'', py_str ''n: '' 5)] =
     get_cache_key ''add'' [py_int ''2'' 3, py_int ''3'' 4] [(''prompt'', py_str ''value: '' 6)]
   \<and> get_cache_path sample_world sample_generator ''add''
       (get_cache_key ''add'' [py_int ''1'' 1, py_int ''1'' 2] [(''prompt'', py_str ''n: '' 5)]) =
     get_cache_path sample_world sample_generator ''add''
       (get_cache_key ''add'' [py_int ''2'' 3, py_int ''3'' 4] [(''prompt'', py_str ''value: '' 6)])"
proof -
  have a: "map ob_type [py_int ''1'' 1, py_int ''1'' 2] = map ob_type [py_int ''2'' 3, py_int ''3'' 4]"
    by (simp add: py_int_def)
  have k: "map fst [(''prompt'', py_str ''n: '' 5)] = map fst [(''prompt'', py_str ''value: '' 6)]"
    by simp
  have t: "map (\<lambda>kv. ob_type (snd kv)) [(''prompt'', py_str ''n: '' 5)] =
           map (\<lambda>kv. ob_type (snd kv)) [(''prompt'', py_str ''value: '' 6)]"
    by (simp add: py_str_def)
  from cache_key_same_when_types_same[OF a k t, of "''add''" sample_world sample_generator] a k
  show ?thesis by blast
qed

text \<open>
  The claim as the specification words it fails: the same keyword arguments, with the
  same types key by key (here even the same values), passed in another order give
  another key, since the dictionary is formatted in the order of the call.
\<close>

theorem cache_key_keyword_order_counterexample:
  "map_of (map (\<lambda>kv. (fst kv, ob_type (snd kv))) [(''a'', py_int ''1'' 1), (''b'', py_int ''2'' 2)]) =
   map_of (map (\<lambda>kv. (fst kv, ob_type (snd kv))) [(''b'', py_int ''2'' 2), (''a'', py_int ''1'' 1)])
   \<and> get_cache_key ''int_less_than'' [] [(''a'', py_int ''1'' 1), (''b'', py_int ''2'' 2)] \<noteq>
     get_cache_key ''int_less_than'' [] [(''b'', py_int ''2'' 2), (''a'', py_int ''1'' 1)]"
proof -
  have m: "map_of (map (\<lambda>kv. (fst kv, ob_type (snd kv))) [(''a'', py_int ''1'' 1), (''b'', py_int ''2'' 2)]) =
   map_of (map (\<lambda>kv. (fst kv, ob_type (snd kv))) [(''b'', py_int ''2'' 2), (''a'', py_int ''1'' 1)])"
    by (rule ext) simp
  have "kwarg_types [(''a'', py_int ''1'' 1), (''b'', py_int ''2'' 2)] \<noteq>
        kwarg_types [(''b'', py_int ''2'' 2), (''a'', py_int ''1'' 1)]"
    by (simp add: kwarg_types_def)
  then have "get_cache_key ''int_less_than'' [] [(''a'', py_int ''1'' 1), (''b'', py_int ''2'' 2)] \<noteq>
     get_cache_key ''int_less_than'' [] [(''b'', py_int ''2'' 2), (''a'', py_int ''1'' 1)]"
    by (simp only: get_cache_key_eq_iff simp_thms)
  with m show ?thesis by blast
qed

section \<open>Claims on the generators\<close>

lemma load_from_cache_files: "files (snd (load_from_cache w g p n)) = files g"
  by (simp add: load_from_cache_def split: option.splits prod.splits)

lemma generate_code_files: "files (snd (generate_code w g sp up)) = files g"
  by (simp add: generate_code_def Let_def split: sum.splits)

lemma execute_code_files: "files (snd (execute_code w g c n)) = files g"
  by (simp add: execute_code_def split: option.splits prod.splits)

lemma anything_call_error_files:
  assumes "fst (anything_call w g func ctx) = Inl e"
  shows "files (snd (anything_call w g func ctx)) = files g"
proof -
  let ?sig = "get_function_signature func"
  let ?path = "get_cache_path w g (fn_name func) (?sig @ ctx)"
  obtain r1 g1 where l: "load_from_cache w g ?path (fn_name func) = (r1, g1)"
    by (cases "load_from_cache w g ?path (fn_name func)")
  have f1: "files g1 = files g" using load_from_cache_files[of w g ?path "fn_name func"] l by simp
  show ?thesis
  proof (cases r1)
    case (Inl e1)
    with l f1 show ?thesis by (simp add: anything_call_def Let_def)
  next
    case (Inr cached)
    show ?thesis
    proof (cases "ob_truthy cached")
      case True
      with l Inr assms show ?thesis by (simp add: anything_call_def Let_def)
    next
      case False
      let ?up = "if ctx \<noteq> [] then
                         ''Context of related functions:\<newline>'' @ ctx @
                         ''\<newline>\<newline>Generate code for:\<newline>'' @ ?sig
                       else ?sig"
      obtain r2 g2 where c: "generate_code w g1 anything_system_prompt ?up = (r2, g2)"
        by (cases "generate_code w g1 anything_system_prompt ?up")
      have f2: "files g2 = files g1"
        using generate_code_files[of w g1 anything_system_prompt ?up] c by simp
      show ?thesis
      proof (cases r2)
        case (Inl e2)
        with l Inr False c f1 f2 show ?thesis by (simp add: anything_call_def Let_def)
      next
        case (Inr code)
        obtain r3 g3 where x: "execute_code w g2 code (fn_name func) = (r3, g3)"
          by (cases "execute_code w g2 code (fn_name func)")
        have f3: "files g3 = files g2"
          using execute_code_files[of w g2 code "fn_name func"] x by simp
        show ?thesis
        proof (cases r3)
          case (Inl e3)
          with l \<open>r1 = Inr cached\<close> False c Inr x f1 f2 f3 show ?thesis
            by (simp add: anything_call_def Let_def)
        next
          case (Inr impl)
          with l \<open>r1 = Inr cached\<close> False c \<open>r2 = Inr code\<close> x assms show ?thesis
            by (simp add: anything_call_def Let_def)
        qed
      qed
    qed
  qed
qed


lemma generate_function_error_files:
  assumes "fst (generate_function w s name args kwargs) = Inl e"
  shows "files (base (snd (generate_function w s name args kwargs))) = files (base s)"
proof -
  let ?key = "get_cache_key name args kwargs"
  let ?path = "get_cache_path w (base s) name ?key"
  obtain r1 g1 where l: "load_from_cache w (base s) ?path name = (r1, g1)"
    by (cases "load_from_cache w (base s) ?path name")
  have f1: "files g1 = files (base s)"
    using load_from_cache_files[of w "base s" ?path name] l by simp
  show ?thesis
  proof (cases r1)
    case (Inl e1)
    with l f1 show ?thesis by (simp add: generate_function_def Let_def)
  next
    case (Inr cached)
    show ?thesis
    proof (cases "ob_truthy cached")
      case True
      with l Inr assms show ?thesis by (simp add: generate_function_def Let_def)
    next
      case False
      let ?up = "get_context_string s @ ''Function name: '' @ name @
                      '', argument types: args: '' @ repr_str_list (arg_types args) @
                      (if kwarg_types kwargs \<noteq> [] then
                         '', kwargs: '' @ repr_dict repr_str (kwarg_types kwargs)
                       else [])"
      obtain r2 g2 where c: "generate_code w g1 everything_system_prompt ?up = (r2, g2)"
        by (cases "generate_code w g1 everything_system_prompt ?up")
      have f2: "files g2 = files g1"
        using generate_code_files[of w g1 everything_system_prompt ?up] c by simp
      show ?thesis
      proof (cases r2)
        case (Inl e2)
        with l Inr False c f1 f2 show ?thesis by (simp add: generate_function_def Let_def)
      next
        case (Inr code)
        obtain r3 g3 where x: "execute_code w g2 code name = (r3, g3)"
          by (cases "execute_code w g2 code name")
        have f3: "files g3 = files g2"
          using execute_code_files[of w g2 code name] x by simp
        show ?thesis
        proof (cases r3)
          case (Inl e3)
          with l \<open>r1 = Inr cached\<close> False c Inr x f1 f2 f3 show ?thesis
            by (simp add: generate_function_def Let_def)
        next
          case (Inr impl)
          with l \<open>r1 = Inr cached\<close> False c \<open>r2 = Inr code\<close> x assms show ?thesis
            by (simp add: generate_function_def Let_def)
        qed
      qed
    qed
  qed
qed


lemmas sample_defs =
  sample_world_def sample_generator_def sample_everything_def sample_lazy_generated_def
  base_generator_init_def no_kwargs_def py_None_def py_function_def py_int_def

lemma sample_reply_clean:
  "clean_code sample_reply = add_source"
  by (simp add: sample_reply_def clean_code_def startswith_def slice_from_to_neg_def strip_def
      is_space_def add_source_def)

lemma prompts_distinct:
  "anything_system_prompt \<noteq> constant_prompt"
  "anything_system_prompt \<noteq> everything_system_prompt"
  "everything_system_prompt \<noteq> constant_prompt"
  by (simp_all add: anything_system_prompt_def constant_prompt_def everything_system_prompt_def)

text \<open>
  Claim C10. When \<^verbatim>\<open>Anything.__call__\<close> or \<^verbatim>\<open>Everything._generate_function\<close> raises,
  whatever the exception (of the endpoint, of \<^verbatim>\<open>exec\<close>, or the \<^verbatim>\<open>KeyError\<close> of a name
  the executed source did not bind), the cache files are those from before the call:
  \<^verbatim>\<open>_save_to_cache\<close> comes after the last step that can raise.
\<close>

theorem function_generation_error_keeps_cache:
  "(fst (anything_call w g func ctx) = Inl e \<longrightarrow>
      files (snd (anything_call w g func ctx)) = files g)
   \<and> (fst (generate_function w s name args kwargs) = Inl e' \<longrightarrow>
      files (base (snd (generate_function w s name args kwargs))) = files (base s))"
  using anything_call_error_files generate_function_error_files by blast

theorem function_generation_error_keeps_cache_witness:
  "fst (anything_call sample_world sample_generator max_func []) = Inl EndpointError
   \<and> files (snd (anything_call sample_world sample_generator max_func [])) = files sample_generator
   \<and> fst (generate_function sample_world sample_everything ''sub'' [] []) = Inl (KeyError ''sub'')
   \<and> files (base (snd (generate_function sample_world sample_everything ''sub'' [] [])))
     = files (base sample_everything)"
proof -
  have h1: "fst (anything_call sample_world sample_generator max_func []) = Inl EndpointError"
    by (simp add: anything_call_def load_from_cache_def generate_code_def Let_def
        sample_defs prompts_distinct)
  have h2: "fst (generate_function sample_world sample_everything ''sub'' [] []) = Inl (KeyError ''sub'')"
    by (simp add: generate_function_def load_from_cache_def generate_code_def execute_code_def
        Let_def sample_defs prompts_distinct sample_reply_clean)
  from function_generation_error_keeps_cache[of sample_world sample_generator max_func "[]"
      EndpointError sample_everything "''sub''" "[]" "[]" "KeyError ''sub''"] h1 h2
  show ?thesis by blast
qed

text \<open>
  Claim C9. After \<^verbatim>\<open>clear_context\<close> the context list is empty (and so is the copy that
  \<^verbatim>\<open>get_context\<close> returns), and clearing again changes nothing.
\<close>

theorem clear_context_idempotent:
  "ev_context (clear_context s) = []
   \<and> get_context (clear_context s) = []
   \<and> clear_context (clear_context s) = clear_context s"
  by (simp add: clear_context_def get_context_def)

theorem clear_context_idempotent_witness:
  "ev_context (clear_context (add_to_context sample_everything ''Constant'' ''zero'' ''value: 0'')) = []
   \<and> clear_context (clear_context (add_to_context sample_everything ''Constant'' ''zero'' ''value: 0''))
     = clear_context (add_to_context sample_everything ''Constant'' ''zero'' ''value: 0'')
   \<and> ev_context (add_to_context sample_everything ''Constant'' ''zero'' ''value: 0'')
     = [''Constant: zero - value: 0'']"
proof -
  have "ev_context (add_to_context sample_everything ''Constant'' ''zero'' ''value: 0'')
     = [''Constant: zero - value: 0'']"
    by (simp add: add_to_context_def sample_everything_def)
  with clear_context_idempotent[of "add_to_context sample_everything ''Constant'' ''zero'' ''value: 0''"]
  show ?thesis by blast
qed

text \<open>
  Claim C5. On a \<^verbatim>\<open>LazyAnything\<close> whose \<^verbatim>\<open>_generated\<close> flag is set, \<^verbatim>\<open>_generate_all\<close>,
  \<^verbatim>\<open>generate_all\<close> and \<^verbatim>\<open>finalize\<close> return at once and a wrapper does not call the
  trigger: the whole state, with the registered functions, the flag and the requests
  sent to the endpoint, is the one from before.
\<close>

theorem trigger_after_generated_is_noop:
  assumes "generated s"
  shows "do_generate_all w s = (Inr (), s)
       \<and> generate_all w s = (Inr (), s)
       \<and> finalize w s = (Inr (), s)
       \<and> snd (wrapper w s name) = s"
  using assms
  by (simp add: do_generate_all_def generate_all_def finalize_def wrapper_def split: option.splits)

theorem trigger_after_generated_is_noop_witness:
  "generated sample_lazy_generated
   \<and> generate_all sample_world sample_lazy_generated = (Inr (), sample_lazy_generated)
   \<and> finalize sample_world sample_lazy_generated = (Inr (), sample_lazy_generated)
   \<and> snd (wrapper sample_world sample_lazy_generated ''max_'') = sample_lazy_generated"
proof -
  have h: "generated sample_lazy_generated" by (simp add: sample_lazy_generated_def)
  from trigger_after_generated_is_noop[OF h, of sample_world "''max_''"] h
  show ?thesis by blast
qed

text \<open>
  Claim C7 at its failing input. \<^verbatim>\<open>Everything.__init__\<close> passes \<^verbatim>\<open>cache_dir\<close> to the
  base constructor twice when the caller gives it, and the call raises \<^verbatim>\<open>TypeError\<close>,
  whatever the key and the file system; \<^verbatim>\<open>Anything\<close> and \<^verbatim>\<open>LazyAnything\<close> take the same
  argument as the claim says, when a key is at hand and the directory can be made.
\<close>

theorem everything_init_cache_dir_raises:
  "everything_init getenv mkdir fs (kwargs\<lparr>kw_cache_dir := Some d\<rparr>) = Inl (TypeError ''cache_dir'')
   \<and> (getenv = Some key \<and> mkdir d = None \<longrightarrow>
        (\<exists>g. anything_init getenv mkdir fs (kwargs\<lparr>kw_cache_dir := Some d\<rparr>) = Inr g \<and> cache_dir g = d)
        \<and> (\<exists>l. lazy_anything_init getenv mkdir fs (kwargs\<lparr>kw_cache_dir := Some d\<rparr>) = Inr l
               \<and> cache_dir (generator l) = d))"
  by (simp add: everything_init_def anything_init_def lazy_anything_init_def base_generator_init_def
      split: option.splits)

theorem everything_init_cache_dir_raises_witness:
  "everything_init (Some ''sk-sample'') (\<lambda>dir. None) Map.empty (no_kwargs\<lparr>kw_cache_dir := Some ''my_cache''\<rparr>)
     = Inl (TypeError ''cache_dir'')
   \<and> anything_init (Some ''sk-sample'') (\<lambda>dir. None) Map.empty (no_kwargs\<lparr>kw_cache_dir := Some ''my_cache''\<rparr>)
     = Inr (sample_generator\<lparr>cache_dir := ''my_cache''\<rparr>)
   \<and> (\<exists>l. lazy_anything_init (Some ''sk-sample'') (\<lambda>dir. None) Map.empty
             (no_kwargs\<lparr>kw_cache_dir := Some ''my_cache''\<rparr>) = Inr l
          \<and> cache_dir (generator l) = ''my_cache'')
   \<and> everything_init (Some ''sk-sample'') (\<lambda>dir. None) Map.empty no_kwargs = Inr sample_everything"
proof -
  have a: "anything_init (Some ''sk-sample'') (\<lambda>dir. None) Map.empty (no_kwargs\<lparr>kw_cache_dir := Some ''my_cache''\<rparr>)
     = Inr (sample_generator\<lparr>cache_dir := ''my_cache''\<rparr>)"
    by (simp add: anything_init_def base_generator_init_def no_kwargs_def sample_generator_def)
  have e: "everything_init (Some ''sk-sample'') (\<lambda>dir. None) Map.empty no_kwargs = Inr sample_everything"
    by (simp add: everything_init_def base_generator_init_def no_kwargs_def sample_generator_def
        sample_everything_def)
  from everything_init_cache_dir_raises[where getenv = "Some ''sk-sample''" and mkdir = "\<lambda>dir. None"
      and fs = Map.empty and kwargs = no_kwargs and d = "''my_cache''" and key = "''sk-sample''"] a e
  show ?thesis by simp
qed

text \<open>
  Claim C8. Whenever \<^verbatim>\<open>_generate_constant\<close> returns a value, it executed a source text
  (the cache file when there is one, the cleaned reply of the endpoint otherwise) in a
  fresh namespace without an exception, and the value is the binding of the declared
  name in that namespace when there is one, else the binding of the upper-cased name,
  else \<^verbatim>\<open>None\<close>.
\<close>

theorem generate_constant_lookup_falls_back_to_upper:
  assumes "fst (generate_constant w s const_name) = Inr v"
  shows "\<exists>code local_env.
           (files (base s) (get_cache_path w (base s) const_name (''const_'' @ const_name)) = Some code
            \<or> (files (base s) (get_cache_path w (base s) const_name (''const_'' @ const_name)) = None
               \<and> fst (generate_code w (base s) constant_prompt
                        (get_context_string s @ ''Constant name: '' @ const_name)) = Inr code))
           \<and> py_exec w code Map.empty = (None, local_env)
           \<and> v = (case local_env const_name of
                    Some declared \<Rightarrow> declared
                  | None \<Rightarrow> (case local_env (str_upper w const_name) of
                               Some upper \<Rightarrow> upper
                             | None \<Rightarrow> py_None))"
proof -
  let ?path = "get_cache_path w (base s) const_name (''const_'' @ const_name)"
  let ?look = "\<lambda>local_env. case local_env const_name of
                    Some declared \<Rightarrow> declared
                  | None \<Rightarrow> (case local_env (str_upper w const_name) of
                               Some upper \<Rightarrow> upper
                             | None \<Rightarrow> py_None)"
  have look: "\<And>local_env. constant_lookup w local_env const_name = ?look local_env"
    by (simp add: constant_lookup_def dict_get_def split: option.splits)
  show ?thesis
  proof (cases "files (base s) ?path")
    case (Some code)
    obtain r local_env where x: "py_exec w code Map.empty = (r, local_env)"
      by (cases "py_exec w code Map.empty")
    show ?thesis
    proof (cases r)
      case None
      with assms Some x have "v = constant_lookup w local_env const_name"
        by (simp add: generate_constant_def Let_def)
      with Some x None look show ?thesis by auto
    next
      case (Some e)
      with assms \<open>files (base s) ?path = Some code\<close> x show ?thesis
        by (simp add: generate_constant_def Let_def)
    qed
  next
    case None
    let ?up = "get_context_string s @ ''Constant name: '' @ const_name"
    obtain r1 g1 where c: "generate_code w (base s) constant_prompt ?up = (r1, g1)"
      by (cases "generate_code w (base s) constant_prompt ?up")
    show ?thesis
    proof (cases r1)
      case (Inl e)
      with assms None c show ?thesis by (simp add: generate_constant_def Let_def)
    next
      case (Inr code)
      obtain r local_env where x: "py_exec w code Map.empty = (r, local_env)"
        by (cases "py_exec w code Map.empty")
      show ?thesis
      proof (cases r)
        case (Some e)
        with assms \<open>files (base s) ?path = None\<close> c Inr x show ?thesis
          by (simp add: generate_constant_def Let_def)
      next
        case None
        with assms \<open>files (base s) ?path = None\<close> c Inr x
        have "v = constant_lookup w local_env const_name"
          by (simp add: generate_constant_def Let_def)
        moreover from c Inr
        have "fst (generate_code w (base s) constant_prompt ?up) = Inr code" by simp
        ultimately show ?thesis using \<open>files (base s) ?path = None\<close> x None look by auto
      qed
    qed
  qed
qed

lemma ascii_upper_zero: "ascii_upper ''zero'' = ''ZERO''"
  by (simp add: ascii_upper_def char_of_eq_iff)

lemma clean_code_zero: "clean_code ''ZERO = 0'' = ''ZERO = 0''"
  by (simp add: clean_code_def startswith_def strip_def is_space_def)

lemma generate_constant_zero:
  "fst (generate_constant sample_world sample_everything ''zero'') = Inr (py_int ''0'' 2)"
  by (simp add: generate_constant_def generate_code_def constant_lookup_def dict_get_def Let_def
      sample_world_def sample_generator_def sample_everything_def base_generator_init_def
      no_kwargs_def add_source_def ascii_upper_zero clean_code_zero)

theorem generate_constant_lookup_falls_back_to_upper_witness:
  "fst (generate_constant sample_world sample_everything ''zero'') = Inr (py_int ''0'' 2)
   \<and> (\<exists>code local_env.
         (files (base sample_everything)
            (get_cache_path sample_world (base sample_everything) ''zero'' (''const_'' @ ''zero'')) = Some code
          \<or> (files (base sample_everything)
                (get_cache_path sample_world (base sample_everything) ''zero'' (''const_'' @ ''zero'')) = None
             \<and> fst (generate_code sample_world (base sample_everything) constant_prompt
                      (get_context_string sample_everything @ ''Constant name: '' @ ''zero'')) = Inr code))
         \<and> py_exec sample_world code Map.empty = (None, local_env)
         \<and> py_int ''0'' 2 = (case local_env ''zero'' of
                  Some declared \<Rightarrow> declared
                | None \<Rightarrow> (case local_env (str_upper sample_world ''zero'') of
                             Some upper \<Rightarrow> upper
                           | None \<Rightarrow> py_None)))"
  using generate_constant_lookup_falls_back_to_upper[OF generate_constant_zero] generate_constant_zero
  by blast

















lemma map_of_dict_set: "map_of (dict_set kvs k v) k = Some v"
  by (induction kvs) simp_all

lemma lazy_step_generated:
  assumes "generated s"
  shows "generated (lazy_step w s c)
       \<and> registered_functions (lazy_step w s c) = registered_functions s
       \<and> generator (lazy_step w s c) = generator s"
  using assms
  by (cases c)
     (simp_all add: register_def generate_all_def finalize_def do_generate_all_def wrapper_def
        split: option.splits)

lemma lazy_run_generated:
  assumes "generated s"
  shows "generated (lazy_run w s calls)
       \<and> registered_functions (lazy_run w s calls) = registered_functions s
       \<and> generator (lazy_run w s calls) = generator s"
  using assms
proof (induction calls arbitrary: s)
  case Nil
  then show ?case by (simp add: lazy_run_def)
next
  case (Cons c calls)
  from lazy_step_generated[OF Cons.prems, of w c]
  have g: "generated (lazy_step w s c)"
    and r: "registered_functions (lazy_step w s c) = registered_functions s"
    and e: "generator (lazy_step w s c) = generator s"
    by blast+
  from Cons.IH[OF g] r e show ?case by (simp add: lazy_run_def)
qed

text \<open>
  Claim C4, as the code has it. \<^verbatim>\<open>register\<close> has no guard: called after generation it
  still stores the function among the pending ones. But from a state whose
  \<^verbatim>\<open>_generated\<close> flag is set, no sequence of calls (\<^verbatim>\<open>register\<close>, \<^verbatim>\<open>generate_all\<close>,
  \<^verbatim>\<open>finalize\<close>, wrappers) clears the flag, changes the registered functions or reaches
  the generator. So a function registered after generation is never generated: each call
  of its wrapper raises \<^verbatim>\<open>KeyError\<close> when its name was not generated before, and resolves
  to the implementation generated before under that name otherwise.
\<close>

theorem late_registration_is_never_generated:
  assumes "generated s"
  shows "map_of (pending_functions (register s func)) (fn_name func) = Some func
       \<and> generated (lazy_run w s (before @ Register func # after))
       \<and> registered_functions (lazy_run w s (before @ Register func # after)) = registered_functions s
       \<and> generator (lazy_run w s (before @ Register func # after)) = generator s
       \<and> wrapper w (lazy_run w s (before @ Register func # after)) (fn_name func)
           = ((case registered_functions s (fn_name func) of
                 None \<Rightarrow> Inl (KeyError (fn_name func))
               | Some impl \<Rightarrow> Inr impl),
              lazy_run w s (before @ Register func # after))"
proof -
  let ?s' = "lazy_run w s (before @ Register func # after)"
  from lazy_run_generated[OF assms, of w "before @ Register func # after"]
  have g: "generated ?s'" and r: "registered_functions ?s' = registered_functions s"
    and e: "generator ?s' = generator s"
    by blast+
  from g r have "wrapper w ?s' (fn_name func)
           = ((case registered_functions s (fn_name func) of
                 None \<Rightarrow> Inl (KeyError (fn_name func))
               | Some impl \<Rightarrow> Inr impl), ?s')"
    by (simp add: wrapper_def split: option.splits)
  moreover have "map_of (pending_functions (register s func)) (fn_name func) = Some func"
    by (simp add: register_def map_of_dict_set)
  ultimately show ?thesis using g r e by blast
qed

theorem late_registration_is_never_generated_witness:
  "generated sample_lazy_generated
   \<and> map_of (pending_functions (register sample_lazy_generated calculator_func)) ''calculator''
     = Some calculator_func
   \<and> generated (lazy_run sample_world sample_lazy_generated
        ([GenerateAll] @ Register calculator_func # [Finalize, CallWrapper ''calculator'']))
   \<and> generator (lazy_run sample_world sample_lazy_generated
        ([GenerateAll] @ Register calculator_func # [Finalize, CallWrapper ''calculator'']))
     = sample_generator
   \<and> wrapper sample_world
       (lazy_run sample_world sample_lazy_generated
          ([GenerateAll] @ Register calculator_func # [Finalize, CallWrapper ''calculator'']))
       ''calculator''
     = (Inl (KeyError ''calculator''),
        lazy_run sample_world sample_lazy_generated
          ([GenerateAll] @ Register calculator_func # [Finalize, CallWrapper ''calculator'']))"
proof -
  have g: "generated sample_lazy_generated" by (simp add: sample_lazy_generated_def)
  have n: "fn_name calculator_func = ''calculator''" by (simp add: calculator_func_def)
  have r: "registered_functions sample_lazy_generated ''calculator'' = None"
    by (simp add: sample_lazy_generated_def)
  have e: "generator sample_lazy_generated = sample_generator"
    by (simp add: sample_lazy_generated_def)
  from late_registration_is_never_generated[OF g, of calculator_func sample_world "[GenerateAll]"
      "[Finalize, CallWrapper ''calculator'']"] g n r e
  show ?thesis by simp
qed

text \<open>
  The claim as the specification words it fails: on a generated instance \<^verbatim>\<open>register\<close>
  accepts another declaration under the name \<^verbatim>\<open>max_\<close> and stores it as pending, and the
  wrapper it returns resolves to an implementation, as a registered function's does.
\<close>

theorem late_registration_counterexample:
  "generated sample_lazy_generated
   \<and> late_max_func \<noteq> max_func
   \<and> map_of (pending_functions sample_lazy_generated) ''max_'' = Some max_func
   \<and> map_of (pending_functions (lazy_run sample_world sample_lazy_generated [Register late_max_func]))
        ''max_'' = Some late_max_func
   \<and> wrapper sample_world (lazy_run sample_world sample_lazy_generated [Register late_max_func]) ''max_''
     = (Inr (py_function ''max_'' 3),
        lazy_run sample_world sample_lazy_generated [Register late_max_func])"
  by (simp add: sample_lazy_generated_def late_max_func_def max_func_def lazy_run_def register_def
      wrapper_def)

end
